theory Spec2Isabelle
  imports Complex_Main "HOL-Library.Word"
begin

section \<open>Tensors and the TensorFlow operations used by vcsmc.py\<close>

text \<open>
  A tensor of rank 1 is a list, a tensor of rank 2 a list of rows, and so on.  The
  \<open>float32\<close>/\<open>float64\<close> entries are idealised as real numbers: rounding and overflow
  are not modelled.  \<open>tf.log\<close> agrees with \<open>ln\<close> on positive arguments only (TensorFlow
  returns \<open>-inf\<close> or \<open>NaN\<close> elsewhere), and a TensorFlow division agrees with \<open>/\<close> only for a
  non-zero divisor; the theorems below say where they rely on this.
\<close>

type_synonym matrix = "real list list"

definition tf_log :: "real \<Rightarrow> real" where
  "tf_log x = ln x"

text \<open>\<open>tf.range(start, limit)\<close> on integers.\<close>

definition tf_range :: "int \<Rightarrow> int \<Rightarrow> int list" where
  "tf_range start limit = [start..limit - 1]"

text \<open>\<open>tf.reduce_prod\<close> of an \<open>int32\<close> tensor: the product wraps around modulo \<open>2^32\<close>.\<close>

definition reduce_prod_int32 :: "int list \<Rightarrow> 32 word" where
  "reduce_prod_int32 xs = prod_list (map word_of_int xs)"

text \<open>
  \<open>tf.gather(params, indices)\<close> along the first axis.  TensorFlow rejects an index out
  of range; the indices gathered in a run are in range (\<open>coalesced_pair_less\<close> below).
\<close>

definition gather :: "'a list \<Rightarrow> nat list \<Rightarrow> 'a list" where
  "gather params indices = map (\<lambda>i. params ! i) indices"

text \<open>\<open>tf.linalg.set_diag(input, diagonal)\<close>.\<close>

definition set_diag :: "matrix \<Rightarrow> real list \<Rightarrow> matrix" where
  "set_diag M d = map (\<lambda>i. (M ! i)[i := d ! i]) [0..<length M]"

text \<open>\<open>tf.matmul(A, B)\<close> and \<open>tf.matmul(A, B, transpose_b=True)\<close>.\<close>

definition matmul :: "matrix \<Rightarrow> matrix \<Rightarrow> matrix" where
  "matmul A B = map (\<lambda>row. map (\<lambda>col. sum_list (map2 (*) row col)) (transpose B)) A"

definition matmul_transpose_b :: "matrix \<Rightarrow> matrix \<Rightarrow> matrix" where
  "matmul_transpose_b A B = map (\<lambda>row. map (\<lambda>brow. sum_list (map2 (*) row brow)) B) A"

text \<open>
  \<open>tf.nn.top_k(input, k)\<close> on one row: the \<open>k\<close> largest entries in descending order with
  their indices; of two equal entries the one with the lower index comes first
  (\<open>sort_key\<close> is stable).  TensorFlow rejects a \<open>k\<close> above the length of the row, which
  does not occur in a run: a step has at least two nodes.
\<close>

definition top_k :: "real list \<Rightarrow> nat \<Rightarrow> real list \<times> nat list" where
  "top_k xs k =
     (let order = take k (sort_key (\<lambda>j. - (xs ! j)) [0..<length xs])
      in (map (\<lambda>j. xs ! j) order, order))"

text \<open>\<open>tf.reduce_logsumexp\<close> of one row, by its documented meaning.\<close>

definition reduce_logsumexp :: "real list \<Rightarrow> real" where
  "reduce_logsumexp xs = tf_log (sum_list (map exp xs))"

section \<open>The combinatorial term\<close>

text \<open>
  \<open>ncr(n, r)\<close>: both products are \<open>int32\<close> tensors; the quotient is Python 3's true
  division, which casts both to \<open>float64\<close>.  This product is the first \<open>int32\<close> value
  of the program to overflow as the number of taxa grows; counters, sizes and indices
  are natural numbers in the model.
\<close>

definition ncr :: "int \<Rightarrow> int \<Rightarrow> real" where
  "ncr n r =
     (let numer = reduce_prod_int32 (tf_range (n - r + 1) (n + 1));
          denom = reduce_prod_int32 (tf_range 1 (r + 1))
      in real_of_int (sint numer) / real_of_int (sint denom))"

section \<open>The class VCSMC\<close>

text \<open>
  The fields of the object that the sampler reads.  \<open>left_branches\<close> and
  \<open>right_branches\<close> are the current values of the two \<open>K \<times> (n-1)\<close> variables.
\<close>

record vcsmc =
  taxa :: "string list"
  genome_NxSxA :: "real list list list"
  y_q :: matrix
  y_station :: "real list"
  left_branches :: matrix
  right_branches :: matrix

definition self_n :: "'x vcsmc_scheme \<Rightarrow> nat" where
  "self_n self = length (genome_NxSxA self)"

definition self_s :: "'x vcsmc_scheme \<Rightarrow> nat" where
  "self_s self = length (genome_NxSxA self ! 0)"

definition self_a :: "'x vcsmc_scheme \<Rightarrow> nat" where
  "self_a self = length (genome_NxSxA self ! 0 ! 0)"

definition get_stationary_probs :: "real list \<Rightarrow> matrix" where
  "get_stationary_probs y =
     (let denom = sum_list (map exp y)
      in [map (\<lambda>e. e / denom) (map exp y)])"

text \<open>\<open>get_Q\<close>, for an alphabet of size \<open>a\<close> and the parameter matrix \<open>y\<close> (\<open>self.y_q\<close>).\<close>

definition get_Q :: "nat \<Rightarrow> matrix \<Rightarrow> matrix" where
  "get_Q a y =
     (let denom = map sum_list (set_diag (map (map exp) y) (replicate a 0));
          denom = map (\<lambda>d. replicate a d) denom;
          q_entry = map2 (map2 (\<lambda>e d. e * (1 / d)))
                      (set_diag (map (map exp) y) (replicate a 0)) denom;
          hyphens = map sum_list q_entry;
          Q = set_diag q_entry (map uminus hyphens)
      in Q)"

definition stationary_probs :: "'x vcsmc_scheme \<Rightarrow> matrix" where
  "stationary_probs self = get_stationary_probs (y_station self)"

definition Qmatrix :: "'x vcsmc_scheme \<Rightarrow> matrix" where
  "Qmatrix self = get_Q (self_a self) (y_q self)"

subsection \<open>Randomness\<close>

text \<open>
  The two random sources of a run are inputs of the model: \<open>uniform r k j\<close> is the
  entry \<open>(k, j)\<close> of the \<open>tf.random.uniform\<close> tensor drawn at step \<open>r\<close>, and
  \<open>categorical r k\<close> the \<open>k\<close>-th index drawn by \<open>tf.random.categorical\<close> at step \<open>r\<close>.
\<close>

record draws =
  uniform :: "nat \<Rightarrow> nat \<Rightarrow> nat \<Rightarrow> real"
  categorical :: "nat \<Rightarrow> nat \<Rightarrow> nat"

text \<open>\<open>tf.random.uniform(tf.shape(data), 0, 1)\<close> for a \<open>K \<times> m\<close> tensor \<open>data\<close>.\<close>

definition random_uniform :: "draws \<Rightarrow> nat \<Rightarrow> nat \<Rightarrow> nat \<Rightarrow> matrix" where
  "random_uniform d r K m = map (\<lambda>k. map (\<lambda>j. uniform d r k j) [0..<m]) [0..<K]"

subsection \<open>resample and extend_partial_state\<close>

text \<open>
  \<open>resample\<close>: \<open>indices\<close> is the categorical draw of \<open>K\<close> indices; \<open>log_weights\<close> only
  fixes the distribution it is drawn from.  The \<open>tf.squeeze\<close> of the draw leaves a vector
  of \<open>K\<close> indices when \<open>K \<ge> 2\<close>; with a single particle it leaves a scalar and the
  \<open>gather_nd\<close> of \<open>cond_true_resample\<close> raises: the model is one of runs with \<open>K \<ge> 2\<close>.
\<close>

definition resample ::
  "nat list \<Rightarrow> string list list \<Rightarrow> real list \<Rightarrow> string list list \<times> nat list" where
  "resample indices JC_K log_weights = (gather JC_K indices, indices)"

text \<open>
  \<open>extend_partial_state\<close>.  \<open>tf.reshape(tf.range((n - r) * K), (K, n - r))\<close> has the
  entry \<open>k (n - r) + j\<close> in row \<open>k\<close> and column \<open>j\<close>.  \<open>tf.reshape(JCK, [K * (n - r)])\<close>
  is \<open>concat JCK\<close>; the indices returned by \<open>top_k\<close> are positions within a row.
\<close>

definition extend_partial_state ::
  "nat \<Rightarrow> nat \<Rightarrow> draws \<Rightarrow> string list list \<Rightarrow> nat \<Rightarrow>
     string list \<times> string list \<times> string list \<times> nat list list \<times> nat list list \<times> real \<times> string list list" where
  "extend_partial_state n K d JCK r =
     (let q = 1 / ncr (int n - int r) 2;
          data = map (\<lambda>k. map (\<lambda>j. k * (n - r) + j) [0..<n - r]) [0..<K];
          data = map (map (\<lambda>x. x mod (n - r))) data;
          data = map (map real) data;
          z = map (map (\<lambda>u. - tf_log (- tf_log u))) (random_uniform d r K (n - r));
          scores = map2 (map2 (+)) data z;
          coalesced_indices = map (\<lambda>row. snd (top_k row 2)) scores;
          remaining_indices = map (\<lambda>row. snd (top_k (map uminus row) (n - r - 2))) scores;
          JC_keep = map (gather (concat JCK)) remaining_indices;
          particles = map (gather (concat JCK)) coalesced_indices;
          particle1 = map (\<lambda>p. p ! 0) particles;
          particle2 = map (\<lambda>p. p ! 1) particles;
          particle_coalesced = map2 (\<lambda>p1 p2. p1 @ ''+'' @ p2) particle1 particle2;
          JCK = map2 (\<lambda>keep pc. keep @ [pc]) JC_keep particle_coalesced
      in (particle1, particle2, particle_coalesced, coalesced_indices, remaining_indices, q, JCK))"

subsection \<open>Likelihoods\<close>

text \<open>
  \<open>conditional_likelihood\<close>; the matrix exponential \<open>tf.linalg.expm\<close> is a parameter.
\<close>

definition conditional_likelihood ::
  "(matrix \<Rightarrow> matrix) \<Rightarrow> matrix \<Rightarrow> matrix \<Rightarrow> matrix \<Rightarrow> real \<Rightarrow> real \<Rightarrow> matrix" where
  "conditional_likelihood expm Q l_data r_data l_branch r_branch =
     (let left_Pmatrix = expm (map (map (\<lambda>x. x * l_branch)) Q);
          right_Pmatrix = expm (map (map (\<lambda>x. x * r_branch)) Q);
          left_prob = matmul l_data left_Pmatrix;
          right_prob = matmul r_data right_Pmatrix;
          likelihood = map2 (map2 (*)) left_prob right_prob
      in likelihood)"

definition compute_tree_likelihood :: "matrix \<Rightarrow> matrix \<Rightarrow> real" where
  "compute_tree_likelihood stat data =
     (let tree_likelihood = matmul_transpose_b stat data;
          loglik = sum_list (map tf_log (concat tree_likelihood))
      in loglik)"

subsection \<open>Overcounting correction and the estimator\<close>

definition overcounting_correct :: "nat \<Rightarrow> real \<Rightarrow> nat list \<Rightarrow> nat \<Rightarrow> real" where
  "overcounting_correct n v indices i =
     (let idx1 = int (indices ! 0);
          idx2 = int (indices ! 1);
          threshold = int n - int i - 1;
          cond_greater = (if idx1 > threshold \<and> idx2 > threshold then - 1 else 0);
          result = (if idx1 < threshold \<and> idx2 < threshold then 1 else cond_greater);
          v = v + result
      in 1 / v)"

definition compute_log_ZSMC :: "nat \<Rightarrow> matrix \<Rightarrow> real" where
  "compute_log_ZSMC K log_weights =
     sum_list (map (\<lambda>row. reduce_logsumexp (map (\<lambda>w. w - tf_log (real K)) row)) log_weights)"

subsection \<open>The inner loops of a step\<close>

text \<open>
  Each \<open>tf.while_loop\<close> is a recursive function on the tuple of its loop variables,
  with the condition and the body of the source.

  \<open>tf.squeeze(tf.gather_nd(core, [[k, n1]]))\<close> is the matrix \<open>core ! k ! n1\<close> when the
  sequence length \<open>s\<close> and the alphabet size \<open>a\<close> are at least 2.  With \<open>s = 1\<close> or
  \<open>a = 1\<close> the squeeze also drops that axis and the following \<open>tf.matmul\<close> raises, both in
  \<open>body_update_data\<close> and in \<open>body_compute_forest\<close>: the model is one of data sets with
  \<open>s \<ge> 2\<close> and \<open>a \<ge> 2\<close>.
\<close>

type_synonym update_data_vars =
  "matrix list list \<times> matrix list list \<times> nat list list \<times> nat \<times> nat"

fun body_update_data ::
  "'x vcsmc_scheme \<Rightarrow> (matrix \<Rightarrow> matrix) \<Rightarrow> update_data_vars \<Rightarrow> update_data_vars" where
  "body_update_data self expm (new_data, core, coalesced_indices, i, k) =
     (let n1 = coalesced_indices ! k ! 0;
          n2 = coalesced_indices ! k ! 1;
          l_data = core ! k ! n1;
          r_data = core ! k ! n2;
          l_branch = left_branches self ! k ! i;
          r_branch = right_branches self ! k ! i;
          mtx = conditional_likelihood expm (Qmatrix self) l_data r_data l_branch r_branch;
          mtx_ext = [[mtx]];
          new_data = new_data @ mtx_ext;
          k = k + 1
      in (new_data, core, coalesced_indices, i, k))"

fun cond_update_data :: "nat \<Rightarrow> update_data_vars \<Rightarrow> bool" where
  "cond_update_data K (new_data, core, coalesced_indices, i, k) = (k < K)"

function while_update_data ::
  "'x vcsmc_scheme \<Rightarrow> (matrix \<Rightarrow> matrix) \<Rightarrow> nat \<Rightarrow> update_data_vars \<Rightarrow> update_data_vars" where
  "while_update_data self expm K vars =
     (if cond_update_data K vars
      then while_update_data self expm K (body_update_data self expm vars)
      else vars)"
  by pat_completeness auto
termination
  by (relation "measure (\<lambda>(self, expm, K, (new_data, core, ci, i, k)). K - k)")
     (auto simp: Let_def)

declare while_update_data.simps [simp del]

type_synonym compute_forest_vars = "real \<times> matrix list list \<times> nat \<times> nat \<times> nat"

fun body_compute_forest :: "'x vcsmc_scheme \<Rightarrow> compute_forest_vars \<Rightarrow> compute_forest_vars" where
  "body_compute_forest self (log_likelihood_i_k, core, i, k, j) =
     (let log_likelihood_i_k = log_likelihood_i_k +
            compute_tree_likelihood (stationary_probs self) (core ! k ! j);
          j = j + 1
      in (log_likelihood_i_k, core, i, k, j))"

fun cond_compute_forest :: "'x vcsmc_scheme \<Rightarrow> compute_forest_vars \<Rightarrow> bool" where
  "cond_compute_forest self (log_likelihood_i_k, core, i, k, j) =
     (int j < int (self_n self) - 1 - int i)"

function while_compute_forest ::
  "'x vcsmc_scheme \<Rightarrow> compute_forest_vars \<Rightarrow> compute_forest_vars" where
  "while_compute_forest self vars =
     (if cond_compute_forest self vars
      then while_compute_forest self (body_compute_forest self vars)
      else vars)"
  by pat_completeness auto
termination
  by (relation "measure (\<lambda>(self, (ll, core, i, k, j)). self_n self - 1 - i - j)")
     (auto simp: Let_def)

declare while_compute_forest.simps [simp del]

text \<open>
  The two branches of the weight update return the extended \<open>v\<close> and
  \<open>log_weights_i\<close>.
\<close>

definition cond_true_update_weights ::
  "nat \<Rightarrow> nat \<Rightarrow> real list \<Rightarrow> real list \<Rightarrow> real list \<Rightarrow> nat list list \<Rightarrow> real list \<Rightarrow> real \<Rightarrow>
     nat \<Rightarrow> nat \<Rightarrow> real list \<times> real list" where
  "cond_true_update_weights n K log_weights_i log_likelihood_i log_likelihood_tilda
       coalesced_indices v q i k =
     (let v = v @ [overcounting_correct n (v ! k) (coalesced_indices ! k) i];
          new_log_weight = log_likelihood_i ! (k + 1) - log_likelihood_tilda ! k +
                           tf_log (v ! (k + K)) -
                           tf_log q;
          log_weights_i = log_weights_i @ [new_log_weight]
      in (v, log_weights_i))"

definition cond_false_update_weights ::
  "real list \<Rightarrow> real list \<Rightarrow> real list \<Rightarrow> nat list list \<Rightarrow> real list \<Rightarrow> real \<Rightarrow>
     nat \<Rightarrow> nat \<Rightarrow> real list \<times> real list" where
  "cond_false_update_weights log_weights_i log_likelihood_i log_likelihood_tilda
       coalesced_indices v q i k =
     (let v = v @ [1];
          log_weights_i = log_weights_i @ [0]
      in (v, log_weights_i))"

type_synonym update_weights_vars =
  "real list \<times> real list \<times> real list \<times> nat list list \<times> matrix list list \<times> real list \<times> real \<times> nat \<times> nat"

fun body_update_weights ::
  "'x vcsmc_scheme \<Rightarrow> nat \<Rightarrow> update_weights_vars \<Rightarrow> update_weights_vars" where
  "body_update_weights self K
       (log_weights_i, log_likelihood_i, log_likelihood_tilda, coalesced_indices, core, v, q, i, k) =
     (case while_compute_forest self (0, core, i, k, 0) of
        (log_likelihood_i_k, core, i, k, j) \<Rightarrow>
     (let log_likelihood_i = log_likelihood_i @ [log_likelihood_i_k]
      in case (if i > 0
          then cond_true_update_weights (self_n self) K log_weights_i log_likelihood_i
                 log_likelihood_tilda coalesced_indices v q i k
          else cond_false_update_weights log_weights_i log_likelihood_i
                 log_likelihood_tilda coalesced_indices v q i k) of
        (v, log_weights_i) \<Rightarrow>
     (let k = k + 1
      in (log_weights_i, log_likelihood_i, log_likelihood_tilda, coalesced_indices, core, v, q, i, k))))"

fun cond_update_weights :: "nat \<Rightarrow> update_weights_vars \<Rightarrow> bool" where
  "cond_update_weights K
       (log_weights_i, log_likelihood_i, log_likelihood_tilda, coalesced_indices, core, v, q, i, k) =
     (k < K)"


function while_update_weights ::
  "'x vcsmc_scheme \<Rightarrow> nat \<Rightarrow> update_weights_vars \<Rightarrow> update_weights_vars" where
  "while_update_weights self K vars =
     (if cond_update_weights K vars
      then while_update_weights self K (body_update_weights self K vars)
      else vars)"
  by pat_completeness auto
termination
  apply (relation "measure (\<lambda>(self, K, (lw, ll, lt, ci, core, v, q, i, k)). K - k)")
   apply simp
  subgoal for self K vars
  proof -
    assume c: "cond_update_weights K vars"
    have pres: "\<exists>ll' j'. while_compute_forest self (ll, core, i, k, j) = (ll', core, i, k, j')"
      for ll core i k j
    proof (induction self "(ll, core, i, k, j)" arbitrary: ll j rule: while_compute_forest.induct)
      case (1 self)
      show ?case
      proof (cases "cond_compute_forest self (ll, core, i, k, j)")
        case True
        from 1 [OF True] obtain ll' j' where
          "while_compute_forest self (body_compute_forest self (ll, core, i, k, j)) = (ll', core, i, k, j')"
          by (auto simp: Let_def)
        with True show ?thesis by (subst while_compute_forest.simps) simp
      next
        case False
        then show ?thesis by (subst while_compute_forest.simps) simp
      qed
    qed
    obtain lw ll lt ci core v q i k where vars: "vars = (lw, ll, lt, ci, core, v, q, i, k)"
      by (cases vars) auto
    obtain ll' j' where f: "while_compute_forest self (0, core, i, k, 0) = (ll', core, i, k, j')"
      using pres by blast
    have "snd (snd (snd (snd (snd (snd (snd (snd (body_update_weights self K vars)))))))) = k + 1"
      by (simp add: vars f Let_def cond_true_update_weights_def cond_false_update_weights_def)
    moreover have "k < K" using c by (simp add: vars)
    ultimately show ?thesis
      by (simp add: case_prod_unfold vars del: body_update_weights.simps)
  qed
  done

declare while_update_weights.simps [simp del]

subsection \<open>One step of the main loop\<close>

text \<open>
  The loop variables of the main \<open>tf.while_loop\<close>; the fields carry the prefix \<open>m_\<close>
  in front of the source's names.
\<close>

record main_vars =
  m_log_weights :: matrix
  m_log_likelihood :: matrix
  m_log_likelihood_tilda :: "real list"
  m_jump_chains :: "string list list"
  m_jump_chain_tensor :: "string list list"
  m_core :: "matrix list list"
  m_v :: "real list"
  m_r :: nat

text \<open>
  \<open>cond_true_resample\<close>: \<open>indices\<close> is the categorical draw.  The \<open>gather_nd\<close> reads
  entry \<open>[k, r]\<close> of the gathered transpose for every particle \<open>k\<close>.
\<close>

definition cond_true_resample ::
  "nat \<Rightarrow> nat list \<Rightarrow> real list \<Rightarrow> matrix \<Rightarrow> matrix \<Rightarrow> string list list \<Rightarrow> string list list \<Rightarrow> nat \<Rightarrow>
     real list \<times> string list list \<times> string list list" where
  "cond_true_resample K indices log_likelihood_tilda log_weights log_likelihood
       jump_chains jump_chain_tensor r =
     (case resample indices jump_chain_tensor (log_weights ! r) of
        (jump_chain_tensor, indices) \<Rightarrow>
     (let log_likelihood_tilda =
            map (\<lambda>k. gather (transpose log_likelihood) indices ! k ! r) [0..<K];
          jump_chains = map2 (@) jump_chains jump_chain_tensor
      in (log_likelihood_tilda, jump_chains, jump_chain_tensor)))"

definition cond_false_resample ::
  "real list \<Rightarrow> matrix \<Rightarrow> matrix \<Rightarrow> string list list \<Rightarrow> string list list \<Rightarrow> nat \<Rightarrow>
     real list \<times> string list list \<times> string list list" where
  "cond_false_resample log_likelihood_tilda log_weights log_likelihood
       jump_chains jump_chain_tensor r =
     (log_likelihood_tilda, jump_chains, jump_chain_tensor)"

definition body_main ::
  "'x vcsmc_scheme \<Rightarrow> (matrix \<Rightarrow> matrix) \<Rightarrow> nat \<Rightarrow> draws \<Rightarrow> main_vars \<Rightarrow> main_vars" where
  "body_main self expm K d vars =
     (let log_weights = m_log_weights vars;
          log_likelihood = m_log_likelihood vars;
          core = m_core vars;
          r = m_r vars
      in case (if r > 0
          then cond_true_resample K (map (categorical d r) [0..<K]) (m_log_likelihood_tilda vars)
                 log_weights log_likelihood (m_jump_chains vars) (m_jump_chain_tensor vars) r
          else cond_false_resample (m_log_likelihood_tilda vars)
                 log_weights log_likelihood (m_jump_chains vars) (m_jump_chain_tensor vars) r) of
        (log_likelihood_tilda, jump_chains, jump_chain_tensor) \<Rightarrow>
      case extend_partial_state (self_n self) K d jump_chain_tensor r of
        (particle1, particle2, particle_coalesced, coalesced_indices, remaining_indices,
         q, jump_chain_tensor) \<Rightarrow>
     (let new_data = [[replicate (self_s self) (replicate (self_a self) 0)]]
      in case while_update_data self expm K (new_data, core, coalesced_indices, r, 0) of
        (new_data, core_, coalesced_indices, i, k) \<Rightarrow>
     (let new_data = gather new_data [1..<K + 1];
          core = map (gather (concat core)) remaining_indices;
          core = map2 (@) core new_data
      in case while_update_weights self K
                ([0], [0], log_likelihood_tilda, coalesced_indices, core, m_v vars, q, r, 0) of
        (log_weights_i, log_likelihood_i, log_likelihood_tilda, coalesced_indices, core_, v, q, i, k) \<Rightarrow>
     (let log_weights = log_weights @ [gather log_weights_i [1..<K + 1]];
          log_likelihood = log_likelihood @ [gather log_likelihood_i [1..<K + 1]];
          v = gather v [K..<2 * K];
          r = r + 1
      in \<lparr>m_log_weights = log_weights, m_log_likelihood = log_likelihood,
           m_log_likelihood_tilda = log_likelihood_tilda, m_jump_chains = jump_chains,
           m_jump_chain_tensor = jump_chain_tensor, m_core = core, m_v = v, m_r = r\<rparr>))))"

definition cond_main :: "'x vcsmc_scheme \<Rightarrow> main_vars \<Rightarrow> bool" where
  "cond_main self vars = (int (m_r vars) < int (self_n self) - 1)"

function while_main ::
  "'x vcsmc_scheme \<Rightarrow> (matrix \<Rightarrow> matrix) \<Rightarrow> nat \<Rightarrow> draws \<Rightarrow> main_vars \<Rightarrow> main_vars" where
  "while_main self expm K d vars =
     (if cond_main self vars
      then while_main self expm K d (body_main self expm K d vars)
      else vars)"
  by pat_completeness auto

termination
  by (relation "measure (\<lambda>(self, expm, K, d, vars). self_n self - 1 - m_r vars)")
     (auto simp: cond_main_def body_main_def Let_def split: prod.splits)

declare while_main.simps [simp del]

subsection \<open>sample_phylogenies\<close>

text \<open>
  The initial loop variables, and what \<open>sample_phylogenies\<close> returns and stores in
  the object: \<open>s_elbo\<close> is the returned value, \<open>s_cost\<close> and \<open>s_log_weights\<close> are
  \<open>self.cost\<close> and \<open>self.log_weights\<close>, and \<open>s_vars\<close> the loop variables after the loop.
\<close>

record sampled =
  s_elbo :: real
  s_cost :: real
  s_log_weights :: matrix
  s_vars :: main_vars

definition initial_vars :: "'x vcsmc_scheme \<Rightarrow> nat \<Rightarrow> main_vars" where
  "initial_vars self K =
     \<lparr>m_log_weights = [replicate K 0], m_log_likelihood = [replicate K 0],
      m_log_likelihood_tilda = replicate K 1, m_jump_chains = replicate K [''''],
      m_jump_chain_tensor = replicate K (taxa self),
      m_core = replicate K (genome_NxSxA self), m_v = replicate K 1, m_r = 0\<rparr>"

definition sample_phylogenies ::
  "'x vcsmc_scheme \<Rightarrow> (matrix \<Rightarrow> matrix) \<Rightarrow> nat \<Rightarrow> draws \<Rightarrow> sampled" where
  "sample_phylogenies self expm K d =
     (let n = self_n self;
          vars = while_main self expm K d (initial_vars self K);
          log_weights = gather (m_log_weights vars) [1..<n];
          log_likelihood = gather (m_log_likelihood vars) [1..<n];
          elbo = compute_log_ZSMC K log_weights
      in \<lparr>s_elbo = elbo, s_cost = - elbo, s_log_weights = log_weights, s_vars = vars\<rparr>)"

section \<open>Closed forms of intermediate values\<close>

text \<open>
  Names for values that the functions above compute on the way; the lemmas of the next
  sections prove that the loops and \<open>extend_partial_state\<close> compute exactly these.
  \<open>gumbel_scores m d r k\<close> is row \<open>k\<close> of \<open>data + z\<close> at step \<open>r\<close>,
  \<open>coalesced_pair\<close> and \<open>remaining_nodes\<close> are row \<open>k\<close> of \<open>coalesced_indices\<close> and
  \<open>remaining_indices\<close>, and \<open>forest_loglik\<close> is the sum accumulated by the forest loop
  for particle \<open>k\<close>.
\<close>

definition gumbel_scores :: "nat \<Rightarrow> draws \<Rightarrow> nat \<Rightarrow> nat \<Rightarrow> real list" where
  "gumbel_scores m d r k = map (\<lambda>j. real j + - tf_log (- tf_log (uniform d r k j))) [0..<m]"

definition coalesced_pair :: "nat \<Rightarrow> draws \<Rightarrow> nat \<Rightarrow> nat \<Rightarrow> nat list" where
  "coalesced_pair n d r k = snd (top_k (gumbel_scores (n - r) d r k) 2)"

definition remaining_nodes :: "nat \<Rightarrow> draws \<Rightarrow> nat \<Rightarrow> nat \<Rightarrow> nat list" where
  "remaining_nodes n d r k = snd (top_k (map uminus (gumbel_scores (n - r) d r k)) (n - r - 2))"

definition forest_loglik :: "'x vcsmc_scheme \<Rightarrow> matrix list list \<Rightarrow> nat \<Rightarrow> nat \<Rightarrow> real" where
  "forest_loglik self core i k =
     (\<Sum>j\<leftarrow>[0..<self_n self - 1 - i]. compute_tree_likelihood (stationary_probs self) (core ! k ! j))"

text \<open>The loop variables after \<open>j\<close> steps of the main loop.\<close>

definition run_vars ::
  "'x vcsmc_scheme \<Rightarrow> (matrix \<Rightarrow> matrix) \<Rightarrow> nat \<Rightarrow> draws \<Rightarrow> nat \<Rightarrow> main_vars" where
  "run_vars self expm K d j = (body_main self expm K d ^^ j) (initial_vars self K)"

subsection \<open>Small concrete inputs\<close>

text \<open>
  Two data sets over the alphabet \<open>{0, 1}\<close> with two sequence positions, of three and of
  four taxa (one-hot encoded), in the state in which \<open>__init__\<close> and \<open>sample_phylogenies\<close>
  create the parameters, and two random draws; they are used with two particles.  Under \<open>toy_draws\<close> the Gumbel noise of node \<open>j\<close> is
  \<open>4 - 2 j\<close>, so that node \<open>j\<close> has the score \<open>4 - j\<close>.  Under \<open>split_draws\<close> the noise is
  \<open>0\<close> except for node \<open>0\<close> of particle \<open>1\<close> at step \<open>0\<close>, where it is \<open>3\<close>.
\<close>

definition toy3 :: vcsmc where
  "toy3 = \<lparr>taxa = [''A'', ''B'', ''C''],
           genome_NxSxA = [[[1, 0], [0, 1]], [[0, 1], [0, 1]], [[1, 0], [1, 0]]],
           y_q = [[0, 1 / 2], [1 / 2, 0]], y_station = [1 / 2, 1 / 2],
           left_branches = [[1, 1], [1, 1]], right_branches = [[1, 1], [1, 1]]\<rparr>"

definition toy4 :: vcsmc where
  "toy4 = \<lparr>taxa = [''A'', ''B'', ''C'', ''D''],
           genome_NxSxA = [[[1, 0], [0, 1]], [[0, 1], [0, 1]], [[1, 0], [1, 0]], [[0, 1], [1, 0]]],
           y_q = [[0, 1 / 2], [1 / 2, 0]], y_station = [1 / 2, 1 / 2],
           left_branches = [[1, 1, 1], [1, 1, 1]], right_branches = [[1, 1, 1], [1, 1, 1]]\<rparr>"

definition toy_draws :: draws where
  "toy_draws = \<lparr>uniform = \<lambda>r k j. exp (- exp (2 * real j - 4)), categorical = \<lambda>r k. k\<rparr>"

definition split_draws :: draws where
  "split_draws =
     \<lparr>uniform = \<lambda>r k j. if r = 0 \<and> k = 1 \<and> j = 0 then exp (- exp (- 3)) else exp (- 1),
      categorical = \<lambda>r k. k\<rparr>"

section \<open>The proposal probability\<close>

lemma sint_int32:
  "- (2 ^ 31) \<le> k \<Longrightarrow> k < 2 ^ 31 \<Longrightarrow> sint (word_of_int k :: 32 word) = k"
  by (simp add: sint_sbintrunc' signed_take_bit_int_eq_self)

lemma upto_last_two: "[m - 1..m] = [m - 1, m :: int]"
  by (simp add: upto_rec1)

text \<open>As long as the product \<open>m (m - 1)\<close> fits into \<open>int32\<close>, \<open>ncr m 2\<close> is exact.\<close>

lemma ncr_2:
  assumes "2 \<le> m" "m * (m - 1) < 2 ^ 31"
  shows "ncr m 2 = real_of_int (m * (m - 1)) / 2"
proof -
  have "tf_range (m - 2 + 1) (m + 1) = [m - 1, m]"
    using upto_last_two [of m] by (simp add: tf_range_def)
  moreover have "tf_range 1 (2 + 1) = [1, 2]"
    by (simp add: tf_range_def upto_rec1)
  moreover have "sint (word_of_int (m - 1) * word_of_int m :: 32 word) = (m - 1) * m"
  proof -
    have "0 \<le> (m - 1) * m" using assms by simp
    then have "- (2 ^ 31) \<le> (m - 1) * m" by (rule order_trans [rotated]) simp
    moreover have "(m - 1) * m < 2 ^ 31" using assms by (simp add: mult.commute)
    ultimately have "sint (word_of_int ((m - 1) * m) :: 32 word) = (m - 1) * m"
      by (rule sint_int32)
    then show ?thesis by simp
  qed
  ultimately show ?thesis
    by (simp add: ncr_def reduce_prod_int32_def Let_def mult.commute del: of_int_sint)
qed

text \<open>For 46342 nodes the product 46341 * 46342 exceeds \<open>2^31 - 1\<close> and wraps.\<close>

lemma ncr_46342: "ncr 46342 2 = - 1073716337"
  by (simp add: ncr_def reduce_prod_int32_def tf_range_def upto_rec1)

lemma real_choose_two: "real (m choose 2) = real m * (real m - 1) / 2"
proof -
  have "even (m * (m - 1))" by auto
  then have "real (m * (m - 1) div 2) = real (m * (m - 1)) / 2"
    by (simp add: real_of_nat_div)
  moreover have "real (m * (m - 1)) = real m * (real m - 1)"
    by (cases m) (simp_all add: algebra_simps)
  ultimately show ?thesis by (simp add: choose_two)
qed

lemma extend_partial_state_q_eq:
  "(case extend_partial_state n K d JCK r of
      (particle1, particle2, particle_coalesced, coalesced_indices, remaining_indices, q, JCK') \<Rightarrow> q)
   = 1 / ncr (int n - int r) 2"
  by (simp add: extend_partial_state_def Let_def)

text \<open>
  Claim C9, as amended.  At a step \<open>r\<close> with \<open>m = n - r\<close> active nodes, \<open>2 \<le> m \<le> 46341\<close>,
  the proposal probability \<open>q\<close> returned by \<open>extend_partial_state\<close> is exactly
  \<open>1 / C(m, 2) = 2 / (m (m - 1))\<close> over the reals.  The upper bound is what keeps the
  \<open>int32\<close> product \<open>(m - 1) m\<close> computed by \<open>ncr\<close> from wrapping around.
\<close>

theorem extend_partial_state_q:
  assumes "r + 2 \<le> n" and "n - r \<le> 46341"
  shows "(case extend_partial_state n K d JCK r of
      (particle1, particle2, particle_coalesced, coalesced_indices, remaining_indices, q, JCK') \<Rightarrow>
        q = 1 / real ((n - r) choose 2) \<and> q = 2 / (real (n - r) * (real (n - r) - 1)))"
proof -
  define m where "m = int n - int r"
  have m: "m = int (n - r)" "2 \<le> m" "m \<le> 46341" using assms by (simp_all add: m_def)
  have "m * (m - 1) \<le> 46341 * 46340" using m by (intro mult_mono) simp_all
  then have "m * (m - 1) < 2 ^ 31" by simp
  with m have "ncr m 2 = real_of_int (m * (m - 1)) / 2" by (simp add: ncr_2)
  also have "\<dots> = real (n - r) * (real (n - r) - 1) / 2" by (simp add: m)
  finally have ncr: "ncr (int n - int r) 2 = real (n - r) * (real (n - r) - 1) / 2"
    by (simp add: m_def)
  show ?thesis
    by (simp add: extend_partial_state_def Let_def ncr real_choose_two)
qed

theorem extend_partial_state_q_witness:
  "(1::nat) + 2 \<le> 4 \<and> (4::nat) - 1 \<le> 46341 \<and>
   (case extend_partial_state 4 2 \<lparr>uniform = \<lambda>r k j. exp (- 1), categorical = \<lambda>r k. k\<rparr>
           [[''A'', ''B'', ''C+D''], [''A'', ''B'', ''C+D'']] 1 of
      (particle1, particle2, particle_coalesced, coalesced_indices, remaining_indices, q, JCK') \<Rightarrow>
        q = 1 / real ((4 - 1) choose 2) \<and> q = 2 / (real (4 - 1 :: nat) * (real (4 - 1 :: nat) - 1)))"
  using extend_partial_state_q [of 1 4 2 "\<lparr>uniform = \<lambda>r k j. exp (- 1), categorical = \<lambda>r k. k\<rparr>"
           "[[''A'', ''B'', ''C+D''], [''A'', ''B'', ''C+D'']]"]
  by simp

text \<open>
  The claim as stated, for every \<open>m \<ge> 2\<close>, fails at the first step of a run over
  46342 taxa: the wrapped product makes \<open>q\<close> negative.
\<close>

theorem extend_partial_state_q_counterexample:
  "\<not> (case extend_partial_state 46342 2 \<lparr>uniform = \<lambda>r k j. exp (- 1), categorical = \<lambda>r k. k\<rparr>
           (replicate 2 (replicate 46342 ''t'')) 0 of
      (particle1, particle2, particle_coalesced, coalesced_indices, remaining_indices, q, JCK') \<Rightarrow>
        q = 1 / real (46342 choose 2))"
proof -
  have "1 / ncr (int 46342 - int 0) 2 \<noteq> 1 / real (46342 choose 2)"
    by (simp add: ncr_46342 choose_two)
  then show ?thesis
    using extend_partial_state_q_eq [of 46342 2 "\<lparr>uniform = \<lambda>r k j. exp (- 1), categorical = \<lambda>r k. k\<rparr>"
        "replicate 2 (replicate 46342 ''t'')" 0]
    by (simp add: case_prod_unfold)
qed

section \<open>The loops in closed form\<close>

lemma while_update_data_eq:
  "while_update_data self expm K (new_data, core, ci, i, k) =
     (new_data @ map (\<lambda>k'. [conditional_likelihood expm (Qmatrix self)
                          (core ! k' ! (ci ! k' ! 0)) (core ! k' ! (ci ! k' ! 1))
                          (left_branches self ! k' ! i) (right_branches self ! k' ! i)]) [k..<K],
      core, ci, i, max k K)"
proof (induction "K - k" arbitrary: new_data k)
  case 0
  then show ?case by (subst while_update_data.simps) (auto simp: max_def)
next
  case (Suc x)
  then have k: "k < K" and x: "x = K - Suc k" by simp_all
  show ?case
    apply (subst while_update_data.simps)
    apply (simp add: k Let_def Suc.hyps(1) [OF x])
    using k apply (simp add: upt_conv_Cons max_def)
    done
qed

lemma while_compute_forest_eq:
  "while_compute_forest self (ll, core, i, k, j) =
     (ll + (\<Sum>j'\<leftarrow>[j..<self_n self - 1 - i].
              compute_tree_likelihood (stationary_probs self) (core ! k ! j')),
      core, i, k, max j (self_n self - 1 - i))"
proof (induction "self_n self - 1 - i - j" arbitrary: ll j)
  case 0
  then show ?case by (subst while_compute_forest.simps) (auto simp: max_def)
next
  case (Suc x)
  then have j: "j < self_n self - 1 - i" and x: "x = self_n self - 1 - i - Suc j" by simp_all
  then have c: "int j < int (self_n self) - 1 - int i" by linarith
  show ?case
    apply (subst while_compute_forest.simps)
    apply (simp add: c Let_def Suc.hyps(1) [OF x])
    using j apply (simp add: upt_conv_Cons max_def)
    done
qed

lemma body_update_weights_eq:
  assumes "length v = K + k" "length ll = Suc k"
  shows "body_update_weights self K (lw, ll, lt, ci, core, v, q, i, k) =
    (lw @ [if 0 < i then forest_loglik self core i k - lt ! k +
             tf_log (overcounting_correct (self_n self) (v ! k) (ci ! k) i) - tf_log q else 0],
     ll @ [forest_loglik self core i k], lt, ci, core,
     v @ [if 0 < i then overcounting_correct (self_n self) (v ! k) (ci ! k) i else 1], q, i, Suc k)"
  using assms
  by (simp add: while_compute_forest_eq cond_true_update_weights_def cond_false_update_weights_def
      Let_def forest_loglik_def nth_append add.commute)

lemma while_update_weights_eq:
  assumes "length v = K + k" "length ll = Suc k"
  shows "while_update_weights self K (lw, ll, lt, ci, core, v, q, i, k) =
    (lw @ map (\<lambda>k'. if 0 < i then forest_loglik self core i k' - lt ! k' +
                 tf_log (overcounting_correct (self_n self) (v ! k') (ci ! k') i) - tf_log q else 0) [k..<K],
     ll @ map (forest_loglik self core i) [k..<K], lt, ci, core,
     v @ map (\<lambda>k'. if 0 < i then overcounting_correct (self_n self) (v ! k') (ci ! k') i else 1) [k..<K],
     q, i, max k K)"
  using assms
proof (induction "K - k" arbitrary: lw ll v k)
  case 0
  then show ?case by (subst while_update_weights.simps) (auto simp: max_def)
next
  case (Suc x)
  then have k: "k < K" and x: "x = K - Suc k" by simp_all
  let ?V = "if 0 < i then overcounting_correct (self_n self) (v ! k) (ci ! k) i else 1"
  have len: "length (v @ [?V]) = K + Suc k" "length (ll @ [forest_loglik self core i k]) = Suc (Suc k)"
    using Suc.prems by simp_all
  have nth: "(v @ [?V]) ! k' = v ! k'" if "k' < K" for k'
    using that Suc.prems by (simp add: nth_append)
  have step: "while_update_weights self K (lw, ll, lt, ci, core, v, q, i, k) =
      while_update_weights self K (body_update_weights self K (lw, ll, lt, ci, core, v, q, i, k))"
    by (subst while_update_weights.simps) (simp add: k del: body_update_weights.simps)
  show ?case
    unfolding step body_update_weights_eq [OF Suc.prems] Suc.hyps(1) [OF x len]
    using k Suc.prems by (auto simp: upt_conv_Cons max_def nth_append)
qed

section \<open>The sampled pair\<close>

lemma map2_map_map: "map2 f (map g xs) (map h xs) = map (\<lambda>x. f (g x) (h x)) xs"
  by (induction xs) auto

lemma scores_eq:
  "map2 (map2 (+))
     (map (map real) (map (map (\<lambda>x. x mod m)) (map (\<lambda>k. map (\<lambda>j. k * m + j) [0..<m]) [0..<K])))
     (map (map (\<lambda>u. - tf_log (- tf_log u))) (random_uniform d r K m))
   = map (gumbel_scores m d r) [0..<K]"
  by (simp add: random_uniform_def gumbel_scores_def map2_map_map o_def)

lemma length_top_k: "length (snd (top_k xs k)) = min k (length xs)"
  by (simp add: top_k_def Let_def min.commute)

lemma set_top_k: "set (snd (top_k xs k)) \<subseteq> {0..<length xs}"
proof -
  have "set (take k (sort_key (\<lambda>j. - (xs ! j)) [0..<length xs])) \<subseteq>
        set (sort_key (\<lambda>j. - (xs ! j)) [0..<length xs])"
    by (rule set_take_subset)
  then show ?thesis by (simp add: top_k_def Let_def)
qed

lemma distinct_top_k: "distinct (snd (top_k xs k))"
  by (simp add: top_k_def Let_def distinct_take)

lemma length_gumbel_scores [simp]: "length (gumbel_scores m d r k) = m"
  by (simp add: gumbel_scores_def)

lemma length_coalesced_pair: "r + 2 \<le> n \<Longrightarrow> length (coalesced_pair n d r k) = 2"
  by (simp add: coalesced_pair_def length_top_k)

lemma length_remaining_nodes: "length (remaining_nodes n d r k) = n - r - 2"
  by (simp add: remaining_nodes_def length_top_k)

lemma coalesced_pair_less:
  assumes "r + 2 \<le> n" and "j < 2"
  shows "coalesced_pair n d r k ! j < n - r"
proof -
  have "coalesced_pair n d r k ! j \<in> set (coalesced_pair n d r k)"
    using assms by (simp add: length_coalesced_pair)
  then show ?thesis
    using set_top_k [of "gumbel_scores (n - r) d r k" 2] by (auto simp: coalesced_pair_def)
qed

lemma coalesced_pair_distinct:
  assumes "r + 2 \<le> n"
  shows "coalesced_pair n d r k ! 0 \<noteq> coalesced_pair n d r k ! 1"
proof -
  have "distinct (coalesced_pair n d r k)"
    by (simp add: coalesced_pair_def distinct_top_k)
  then show ?thesis
    using assms by (simp add: distinct_conv_nth length_coalesced_pair)
qed

lemma extend_partial_state_eq:
  assumes "r + 2 \<le> n"
  shows "extend_partial_state n K d JCK r =
     (map (\<lambda>k. concat JCK ! (coalesced_pair n d r k ! 0)) [0..<K],
      map (\<lambda>k. concat JCK ! (coalesced_pair n d r k ! 1)) [0..<K],
      map (\<lambda>k. concat JCK ! (coalesced_pair n d r k ! 0) @ ''+'' @
                 concat JCK ! (coalesced_pair n d r k ! 1)) [0..<K],
      map (coalesced_pair n d r) [0..<K],
      map (remaining_nodes n d r) [0..<K],
      1 / ncr (int n - int r) 2,
      map (\<lambda>k. gather (concat JCK) (remaining_nodes n d r k) @
                 [concat JCK ! (coalesced_pair n d r k ! 0) @ ''+'' @
                  concat JCK ! (coalesced_pair n d r k ! 1)]) [0..<K])"
proof -
  have nth: "map ((!) (concat JCK)) (coalesced_pair n d r k) ! j =
             concat JCK ! (coalesced_pair n d r k ! j)" if "j < 2" for k j
    using that assms by (simp add: length_coalesced_pair)
  have nth0: "map ((!) (concat JCK)) (coalesced_pair n d r k) ! 0 =
             concat JCK ! (coalesced_pair n d r k ! 0)" for k
    by (rule nth) simp
  have nth1: "map ((!) (concat JCK)) (coalesced_pair n d r k) ! Suc 0 =
             concat JCK ! (coalesced_pair n d r k ! Suc 0)" for k
    by (rule nth) simp
  show ?thesis
    unfolding extend_partial_state_def Let_def scores_eq
    by (simp add: map2_map_map o_def gather_def nth0 [unfolded coalesced_pair_def]
          nth1 [unfolded coalesced_pair_def] coalesced_pair_def remaining_nodes_def)
qed

section \<open>One step in closed form\<close>

lemma gather_Cons_tail: "length ys = K \<Longrightarrow> gather (x # ys) [Suc 0..<Suc K] = ys"
  by (rule nth_equalityI) (simp_all add: gather_def del: upt_Suc)

lemma gather_append_tail:
  "length xs = K \<Longrightarrow> length ys = K \<Longrightarrow> gather (xs @ ys) [K..<2 * K] = ys"
  by (rule nth_equalityI) (simp_all add: gather_def nth_append)

lemma while_update_data_pairs:
  "while_update_data self expm K (new_data, core, map cp [0..<K], i, 0) =
     (new_data @ map (\<lambda>k. [conditional_likelihood expm (Qmatrix self)
                          (core ! k ! (cp k ! 0)) (core ! k ! (cp k ! 1))
                          (left_branches self ! k ! i) (right_branches self ! k ! i)]) [0..<K],
      core, map cp [0..<K], i, K)"
  by (simp add: while_update_data_eq cong: map_cong)

lemma body_main_eq:
  assumes "m_r vars + 2 \<le> self_n self" and "length (m_v vars) = K"
  shows "body_main self expm K d vars =
    (let r = m_r vars; n = self_n self;
         indices = map (categorical d r) [0..<K];
         tilda = (if 0 < r
                  then map (\<lambda>k. gather (transpose (m_log_likelihood vars)) indices ! k ! r) [0..<K]
                  else m_log_likelihood_tilda vars);
         chain = (if 0 < r then gather (m_jump_chain_tensor vars) indices
                  else m_jump_chain_tensor vars);
         core = map (\<lambda>k. gather (concat (m_core vars)) (remaining_nodes n d r k) @
                   [conditional_likelihood expm (Qmatrix self)
                      (m_core vars ! k ! (coalesced_pair n d r k ! 0))
                      (m_core vars ! k ! (coalesced_pair n d r k ! 1))
                      (left_branches self ! k ! r) (right_branches self ! k ! r)]) [0..<K];
         v = map (\<lambda>k. if 0 < r
                   then overcounting_correct n (m_v vars ! k) (coalesced_pair n d r k) r
                   else 1) [0..<K]
     in \<lparr>m_log_weights = m_log_weights vars @
            [map (\<lambda>k. if 0 < r
                   then forest_loglik self core r k - tilda ! k + tf_log (v ! k) -
                        tf_log (1 / ncr (int n - int r) 2)
                   else 0) [0..<K]],
          m_log_likelihood = m_log_likelihood vars @ [map (forest_loglik self core r) [0..<K]],
          m_log_likelihood_tilda = tilda,
          m_jump_chains = (if 0 < r then map2 (@) (m_jump_chains vars) chain
                           else m_jump_chains vars),
          m_jump_chain_tensor =
            map (\<lambda>k. gather (concat chain) (remaining_nodes n d r k) @
                   [concat chain ! (coalesced_pair n d r k ! 0) @ ''+'' @
                    concat chain ! (coalesced_pair n d r k ! 1)]) [0..<K],
          m_core = core, m_v = v, m_r = r + 1\<rparr>)"
  using assms
  apply (simp add: body_main_def Let_def cond_true_resample_def cond_false_resample_def resample_def
      extend_partial_state_eq while_update_data_pairs while_update_weights_eq
      gather_Cons_tail gather_append_tail map2_map_map o_def del: upt_Suc cong: map_cong)
  done

section \<open>The run as an iteration\<close>

lemma run_vars_0: "run_vars self expm K d 0 = initial_vars self K"
  by (simp add: run_vars_def)

lemma run_vars_Suc:
  "run_vars self expm K d (Suc j) = body_main self expm K d (run_vars self expm K d j)"
  by (simp add: run_vars_def)

lemma body_main_r:
  assumes "m_r vars + 2 \<le> self_n self" and "length (m_v vars) = K"
  shows "m_r (body_main self expm K d vars) = m_r vars + 1"
  by (simp add: body_main_eq [OF assms] Let_def)

lemma body_main_length_v:
  assumes "m_r vars + 2 \<le> self_n self" and "length (m_v vars) = K"
  shows "length (m_v (body_main self expm K d vars)) = K"
  by (simp add: body_main_eq [OF assms] Let_def)

lemma run_vars_r_v:
  "j \<le> self_n self - 1 \<Longrightarrow>
   m_r (run_vars self expm K d j) = j \<and> length (m_v (run_vars self expm K d j)) = K"
proof (induction j)
  case 0
  then show ?case by (simp add: run_vars_0 initial_vars_def)
next
  case (Suc j)
  then have IH: "m_r (run_vars self expm K d j) = j" "length (m_v (run_vars self expm K d j)) = K"
    by simp_all
  have le: "m_r (run_vars self expm K d j) + 2 \<le> self_n self" using Suc.prems IH by simp
  show ?case
    by (simp add: run_vars_Suc body_main_r [OF le IH(2)] body_main_length_v [OF le IH(2)] IH)
qed

lemma run_vars_step:
  assumes "j + 2 \<le> self_n self"
  shows "m_r (run_vars self expm K d j) + 2 \<le> self_n self"
    and "length (m_v (run_vars self expm K d j)) = K"
  using assms run_vars_r_v [of j self expm K d] by simp_all

text \<open>The main loop is the \<open>n - 1\<close>-fold iteration of its body.\<close>

lemma while_main_run_vars:
  assumes "j \<le> self_n self - 1"
  shows "while_main self expm K d (run_vars self expm K d j) =
         run_vars self expm K d (self_n self - 1)"
  using assms
proof (induction "self_n self - 1 - j" arbitrary: j)
  case 0
  then have j: "j = self_n self - 1" by simp
  have r: "m_r (run_vars self expm K d j) = j" using 0 run_vars_r_v by blast
  have "\<not> cond_main self (run_vars self expm K d j)"
    unfolding cond_main_def r using j by linarith
  then show ?case by (subst while_main.simps) (simp add: j)
next
  case (Suc x)
  then have j: "Suc j \<le> self_n self - 1" and x: "x = self_n self - 1 - Suc j" by simp_all
  have r: "m_r (run_vars self expm K d j) = j" using Suc.prems run_vars_r_v by blast
  have "cond_main self (run_vars self expm K d j)"
    unfolding cond_main_def r using j by linarith
  then have "while_main self expm K d (run_vars self expm K d j) =
             while_main self expm K d (run_vars self expm K d (Suc j))"
    by (subst while_main.simps) (simp add: run_vars_Suc)
  then show ?case using Suc.hyps(1) [OF x j] by simp
qed

lemma while_main_initial:
  "while_main self expm K d (initial_vars self K) = run_vars self expm K d (self_n self - 1)"
  using while_main_run_vars [of 0 self expm K d] by (simp add: run_vars_0)

section \<open>The number of steps and of nodes\<close>

lemma body_main_fields:
  assumes "m_r vars + 2 \<le> self_n self" and "length (m_v vars) = K"
  shows "length (m_jump_chain_tensor (body_main self expm K d vars)) = K"
    and "length (m_core (body_main self expm K d vars)) = K"
    and "k < K \<Longrightarrow> length (m_jump_chain_tensor (body_main self expm K d vars) ! k) =
           self_n self - m_r vars - 1"
    and "k < K \<Longrightarrow> length (m_core (body_main self expm K d vars) ! k) =
           self_n self - m_r vars - 1"
  using assms(1)
  by (simp_all add: body_main_eq [OF assms] Let_def gather_def length_remaining_nodes)

lemma run_vars_shape:
  assumes "length (taxa self) = self_n self" and "j \<le> self_n self - 1" and "k < K"
  shows "length (m_jump_chain_tensor (run_vars self expm K d j) ! k) = self_n self - j"
    and "length (m_core (run_vars self expm K d j) ! k) = self_n self - j"
proof -
  have "length (m_jump_chain_tensor (run_vars self expm K d j) ! k) = self_n self - j \<and>
        length (m_core (run_vars self expm K d j) ! k) = self_n self - j"
    using assms(2)
  proof (induction j)
    case 0
    then show ?case
      using assms(1,3) by (simp add: run_vars_0 initial_vars_def self_n_def)
  next
    case (Suc j)
    then have le: "j + 2 \<le> self_n self" by simp
    note st = run_vars_step [OF le, of expm K d]
    have r: "m_r (run_vars self expm K d j) = j"
      using le run_vars_r_v [of j self expm K d] by simp
    show ?case
      using assms(3) le
      by (simp add: run_vars_Suc body_main_fields [OF st] r)
  qed
  then show "length (m_jump_chain_tensor (run_vars self expm K d j) ! k) = self_n self - j"
    and "length (m_core (run_vars self expm K d j) ! k) = self_n self - j"
    by simp_all
qed

text \<open>
  Claim C6.  For a data set of \<open>n \<ge> 1\<close> taxa the main loop is the \<open>n - 1\<close>-fold iteration
  of its body: after \<open>r \<le> n - 1\<close> iterations the step counter is \<open>r\<close> and the loop
  condition holds exactly if \<open>r < n - 1\<close>.  Before step \<open>r\<close>, that is after \<open>r\<close> iterations,
  every particle's row of the jump-chain tensor and of the core holds \<open>n - r\<close> nodes (hence
  \<open>n - r - 1\<close> after the step), and when the loop ends every particle holds one node.
\<close>

theorem main_loop_node_count:
  assumes "length (taxa self) = self_n self" and "1 \<le> self_n self"
  shows "while_main self expm K d (initial_vars self K) = run_vars self expm K d (self_n self - 1) \<and>
     (\<forall>r \<le> self_n self - 1.
        m_r (run_vars self expm K d r) = r \<and>
        cond_main self (run_vars self expm K d r) = (r < self_n self - 1) \<and>
        (\<forall>k < K. length (m_jump_chain_tensor (run_vars self expm K d r) ! k) = self_n self - r \<and>
                 length (m_core (run_vars self expm K d r) ! k) = self_n self - r)) \<and>
     (\<forall>k < K. length (m_jump_chain_tensor (while_main self expm K d (initial_vars self K)) ! k) = 1 \<and>
              length (m_core (while_main self expm K d (initial_vars self K)) ! k) = 1)"
proof (intro conjI allI impI)
  show "while_main self expm K d (initial_vars self K) = run_vars self expm K d (self_n self - 1)"
    by (rule while_main_initial)
next
  fix r assume r: "r \<le> self_n self - 1"
  show mr: "m_r (run_vars self expm K d r) = r"
    using run_vars_r_v [OF r, of expm K d] by simp
  show "cond_main self (run_vars self expm K d r) = (r < self_n self - 1)"
    unfolding cond_main_def mr using assms(2) by linarith
  fix k assume k: "k < K"
  show "length (m_jump_chain_tensor (run_vars self expm K d r) ! k) = self_n self - r"
    by (rule run_vars_shape(1) [OF assms(1) r k])
  show "length (m_core (run_vars self expm K d r) ! k) = self_n self - r"
    by (rule run_vars_shape(2) [OF assms(1) r k])
next
  fix k assume k: "k < K"
  have le: "self_n self - 1 \<le> self_n self - 1" by simp
  show "length (m_jump_chain_tensor (while_main self expm K d (initial_vars self K)) ! k) = 1"
    using run_vars_shape(1) [OF assms(1) le k, of expm d] assms(2)
    by (simp add: while_main_initial)
  show "length (m_core (while_main self expm K d (initial_vars self K)) ! k) = 1"
    using run_vars_shape(2) [OF assms(1) le k, of expm d] assms(2)
    by (simp add: while_main_initial)
qed

lemma toy4_n: "self_n toy4 = 4"
  by (simp add: self_n_def toy4_def)

lemma toy3_n: "self_n toy3 = 3"
  by (simp add: self_n_def toy3_def)

theorem main_loop_node_count_witness:
  "length (taxa toy4) = self_n toy4 \<and> 1 \<le> self_n toy4 \<and> (1::nat) \<le> self_n toy4 - 1 \<and> (0::nat) < 2 \<and>
   while_main toy4 (\<lambda>M. M) 2 toy_draws (initial_vars toy4 2) = run_vars toy4 (\<lambda>M. M) 2 toy_draws 3 \<and>
   m_r (run_vars toy4 (\<lambda>M. M) 2 toy_draws 1) = 1 \<and>
   length (m_jump_chain_tensor (run_vars toy4 (\<lambda>M. M) 2 toy_draws 1) ! 0) = 3 \<and>
   length (m_core (run_vars toy4 (\<lambda>M. M) 2 toy_draws 1) ! 0) = 3 \<and>
   length (m_jump_chain_tensor (while_main toy4 (\<lambda>M. M) 2 toy_draws (initial_vars toy4 2)) ! 0) = 1"
proof -
  have h: "length (taxa toy4) = self_n toy4" "1 \<le> self_n toy4"
    by (simp_all add: toy4_n) (simp add: toy4_def)
  have le: "(1::nat) \<le> self_n toy4 - 1" "(0::nat) < 2" by (simp_all add: toy4_n)
  from main_loop_node_count [OF h, of "\<lambda>M. M" 2 toy_draws] le h
  show ?thesis by (simp add: toy4_n)
qed


section \<open>The rows of the weight and likelihood matrices\<close>

lemma run_vars_rows:
  assumes "j + 2 \<le> self_n self"
  shows "m_log_weights (run_vars self expm K d (Suc j)) =
           m_log_weights (run_vars self expm K d j) @
           [map (\<lambda>k. if 0 < j
                   then forest_loglik self (m_core (run_vars self expm K d (Suc j))) j k -
                        m_log_likelihood_tilda (run_vars self expm K d (Suc j)) ! k +
                        tf_log (m_v (run_vars self expm K d (Suc j)) ! k) -
                        tf_log (1 / ncr (int (self_n self) - int j) 2)
                   else 0) [0..<K]]"
    and "m_log_likelihood (run_vars self expm K d (Suc j)) =
           m_log_likelihood (run_vars self expm K d j) @
           [map (forest_loglik self (m_core (run_vars self expm K d (Suc j))) j) [0..<K]]"
    and "m_log_likelihood_tilda (run_vars self expm K d (Suc j)) =
           (if 0 < j
            then map (\<lambda>k. gather (transpose (m_log_likelihood (run_vars self expm K d j)))
                             (map (categorical d j) [0..<K]) ! k ! j) [0..<K]
            else m_log_likelihood_tilda (run_vars self expm K d j))"
proof -
  note st = run_vars_step [OF assms, of expm K d]
  have r: "m_r (run_vars self expm K d j) = j"
    using assms run_vars_r_v [of j self expm K d] by simp
  show "m_log_weights (run_vars self expm K d (Suc j)) =
           m_log_weights (run_vars self expm K d j) @
           [map (\<lambda>k. if 0 < j
                   then forest_loglik self (m_core (run_vars self expm K d (Suc j))) j k -
                        m_log_likelihood_tilda (run_vars self expm K d (Suc j)) ! k +
                        tf_log (m_v (run_vars self expm K d (Suc j)) ! k) -
                        tf_log (1 / ncr (int (self_n self) - int j) 2)
                   else 0) [0..<K]]"
    by (simp add: run_vars_Suc body_main_eq [OF st] Let_def r)
  show "m_log_likelihood (run_vars self expm K d (Suc j)) =
           m_log_likelihood (run_vars self expm K d j) @
           [map (forest_loglik self (m_core (run_vars self expm K d (Suc j))) j) [0..<K]]"
    by (simp add: run_vars_Suc body_main_eq [OF st] Let_def r)
  show "m_log_likelihood_tilda (run_vars self expm K d (Suc j)) =
           (if 0 < j
            then map (\<lambda>k. gather (transpose (m_log_likelihood (run_vars self expm K d j)))
                             (map (categorical d j) [0..<K]) ! k ! j) [0..<K]
            else m_log_likelihood_tilda (run_vars self expm K d j))"
    by (simp add: run_vars_Suc body_main_eq [OF st] Let_def r)
qed

lemma run_vars_matrix_shape:
  assumes "j \<le> self_n self - 1"
  shows "length (m_log_weights (run_vars self expm K d j)) = j + 1 \<and>
         (\<forall>row \<in> set (m_log_weights (run_vars self expm K d j)). length row = K) \<and>
         length (m_log_likelihood (run_vars self expm K d j)) = j + 1 \<and>
         (\<forall>row \<in> set (m_log_likelihood (run_vars self expm K d j)). length row = K)"
  using assms
proof (induction j)
  case 0
  then show ?case by (simp add: run_vars_0 initial_vars_def)
next
  case (Suc j)
  then have le: "j + 2 \<le> self_n self" by simp
  from Suc show ?case
    by (simp add: run_vars_rows(1,2) [OF le])
qed



section \<open>The overcounting correction\<close>

lemma overcounting_correct_cases:
  "overcounting_correct n v idx i =
     1 / (v + (if int (idx ! 0) < int n - int i - 1 \<and> int (idx ! 1) < int n - int i - 1 then 1
               else if int (idx ! 0) > int n - int i - 1 \<and> int (idx ! 1) > int n - int i - 1 then - 1
               else 0))"
  by (simp add: overcounting_correct_def Let_def)

text \<open>The pairs returned by \<open>top_k\<close> never lie above the threshold.\<close>

lemma overcounting_correct_pair:
  assumes "r + 2 \<le> n"
  shows "overcounting_correct n v (coalesced_pair n d r k) r =
     1 / (v + (if coalesced_pair n d r k ! 0 < n - r - 1 \<and> coalesced_pair n d r k ! 1 < n - r - 1
               then 1 else 0))"
proof -
  have "coalesced_pair n d r k ! 0 < n - r" "coalesced_pair n d r k ! 1 < n - r"
    using assms by (simp_all add: coalesced_pair_less)
  then have "\<not> int (coalesced_pair n d r k ! 0) > int n - int r - 1"
    and "(int (coalesced_pair n d r k ! 0) < int n - int r - 1) = (coalesced_pair n d r k ! 0 < n - r - 1)"
    and "(int (coalesced_pair n d r k ! 1) < int n - int r - 1) = (coalesced_pair n d r k ! 1 < n - r - 1)"
    using assms by linarith+
  then show ?thesis by (simp add: overcounting_correct_cases)
qed

lemma run_vars_v_0: "m_v (run_vars self expm K d 0) = replicate K 1"
  by (simp add: run_vars_0 initial_vars_def)

lemma run_vars_v_Suc:
  assumes "j + 2 \<le> self_n self" and "k < K"
  shows "m_v (run_vars self expm K d (Suc j)) ! k =
     (if 0 < j
      then overcounting_correct (self_n self) (m_v (run_vars self expm K d j) ! k)
             (coalesced_pair (self_n self) d j k) j
      else 1)"
proof -
  note st = run_vars_step [OF assms(1), of expm K d]
  have r: "m_r (run_vars self expm K d j) = j"
    using assms(1) run_vars_r_v [of j self expm K d] by simp
  show ?thesis
    using assms(2) by (simp add: run_vars_Suc body_main_eq [OF st] Let_def r)
qed

lemma run_vars_v_pos:
  assumes "j \<le> self_n self - 1" and "k < K"
  shows "0 < m_v (run_vars self expm K d j) ! k"
  using assms(1)
proof (induction j)
  case 0
  then show ?case using assms(2) by (simp add: run_vars_v_0)
next
  case (Suc j)
  then have le: "j + 2 \<le> self_n self" and IH: "0 < m_v (run_vars self expm K d j) ! k"
    by simp_all
  show ?case
    using IH by (simp add: run_vars_v_Suc [OF le assms(2)] overcounting_correct_pair [OF le])
qed

lemma toy_scores: "gumbel_scores m toy_draws r k = map (\<lambda>j. 4 - real j) [0..<m]"
  by (simp add: gumbel_scores_def toy_draws_def tf_log_def)

lemma toy_pair_3: "coalesced_pair 4 toy_draws (Suc 0) k = [0, Suc 0]"
  by (simp add: coalesced_pair_def toy_scores top_k_def Let_def upt_rec)

lemma toy_pair_2: "coalesced_pair 4 toy_draws (Suc (Suc 0)) k = [0, Suc 0]"
  by (simp add: coalesced_pair_def toy_scores top_k_def Let_def upt_rec)

text \<open>
  The run over the four taxa of \<open>toy4\<close> with two particles and \<open>toy_draws\<close>, whatever the
  matrix exponential is.  At step 1 particle 0 merges the nodes \<open>0\<close> and \<open>1\<close> of three,
  both below the threshold \<open>4 - 1 - 1 = 2\<close>; at step 2 it merges the nodes \<open>0\<close> and \<open>1\<close> of
  two, of which only the first is below the threshold \<open>4 - 2 - 1 = 1\<close>.  The values that
  the loop carries for particle 0 after 1, 2 and 3 steps are \<open>1\<close>, \<open>1 / 2\<close> and \<open>2\<close>.
\<close>

lemma toy_v1: "m_v (run_vars toy4 expm 2 toy_draws (Suc 0)) ! 0 = 1"
  using run_vars_v_Suc [of 0 toy4 0 2 expm toy_draws] by (simp add: toy4_n)

lemma toy_v2: "m_v (run_vars toy4 expm 2 toy_draws (Suc (Suc 0))) ! 0 = 1 / 2"
  using run_vars_v_Suc [of "Suc 0" toy4 0 2 expm toy_draws] toy_v1 [of expm]
  by (simp add: toy4_n toy_pair_3 overcounting_correct_def)

lemma toy_v3: "m_v (run_vars toy4 expm 2 toy_draws (Suc (Suc (Suc 0)))) ! 0 = 2"
  using run_vars_v_Suc [of "Suc (Suc 0)" toy4 0 2 expm toy_draws] toy_v2 [of expm]
  by (simp add: toy4_n toy_pair_2 overcounting_correct_def)

text \<open>The entry of the weight row written at a step \<open>j > 0\<close>.\<close>

lemma run_vars_weight_entry:
  assumes "0 < j" and "j + 2 \<le> self_n self" and "k < K"
  shows "m_log_weights (run_vars self expm K d (Suc j)) ! Suc j ! k =
        forest_loglik self (m_core (run_vars self expm K d (Suc j))) j k -
        m_log_likelihood_tilda (run_vars self expm K d (Suc j)) ! k +
        tf_log (m_v (run_vars self expm K d (Suc j)) ! k) -
        tf_log (1 / ncr (int (self_n self) - int j) 2)"
proof -
  have "j \<le> self_n self - 1" using assms by simp
  from run_vars_matrix_shape [OF this, of expm K d]
  have "length (m_log_weights (run_vars self expm K d j)) = Suc j" by simp
  then show ?thesis
    using assms by (simp add: run_vars_rows(1) [OF assms(2)] nth_append)
qed

text \<open>
  Claim C4 fails on the code.  The claim has the multiplicity of a particle incremented,
  decremented or left unchanged at every step \<open>i > 0\<close> and its reciprocal contributed to
  the weight: in the run above the multiplicity of particle 0 becomes \<open>1 + 1 = 2\<close> at step
  1 (factor \<open>1 / 2\<close>) and stays \<open>2\<close> at step 2, where the pair is mixed (factor \<open>1 / 2\<close>).
  The code agrees at step 1, but what it carries into step 2 is the factor \<open>1 / 2\<close>
  returned by \<open>overcounting_correct\<close>, not the multiplicity \<open>2\<close>: at step 2
  \<open>overcounting_correct\<close> is called with \<open>1 / 2\<close> and the factor whose logarithm enters the
  log weight is \<open>2\<close>.  Called with the multiplicity \<open>2\<close> it returns the \<open>1 / 2\<close> of the claim.
\<close>

theorem reciprocal_fed_back:
  "coalesced_pair (self_n toy4) toy_draws 1 0 = [0, 1] \<and>
   coalesced_pair (self_n toy4) toy_draws 2 0 = [0, 1] \<and>
   m_v (run_vars toy4 expm 2 toy_draws 1) ! 0 = 1 \<and>
   m_v (run_vars toy4 expm 2 toy_draws 2) ! 0 = overcounting_correct (self_n toy4) 1 [0, 1] 1 \<and>
   m_v (run_vars toy4 expm 2 toy_draws 2) ! 0 = 1 / 2 \<and>
   m_v (run_vars toy4 expm 2 toy_draws 3) ! 0 = overcounting_correct (self_n toy4) (1 / 2) [0, 1] 2 \<and>
   m_v (run_vars toy4 expm 2 toy_draws 3) ! 0 = 2 \<and>
   overcounting_correct (self_n toy4) 2 [0, 1] 2 = 1 / 2 \<and>
   m_log_weights (run_vars toy4 expm 2 toy_draws 3) ! 3 ! 0 =
     forest_loglik toy4 (m_core (run_vars toy4 expm 2 toy_draws 3)) 2 0 -
     m_log_likelihood_tilda (run_vars toy4 expm 2 toy_draws 3) ! 0 +
     tf_log 2 - tf_log (1 / ncr (int (self_n toy4) - int 2) 2)"
proof -
  have n3: "(3::nat) = Suc (Suc (Suc 0))" and n2: "(2::nat) = Suc (Suc 0)"
    by simp_all
  have pairs: "coalesced_pair (self_n toy4) toy_draws 1 0 = [0, 1]"
    "coalesced_pair (self_n toy4) toy_draws 2 0 = [0, 1]"
    using toy_pair_3 [of 0] toy_pair_2 [of 0] by (simp_all add: toy4_n numeral_2_eq_2)
  have v: "m_v (run_vars toy4 expm 2 toy_draws 1) ! 0 = 1"
    "m_v (run_vars toy4 expm 2 toy_draws 2) ! 0 = 1 / 2"
    "m_v (run_vars toy4 expm 2 toy_draws 3) ! 0 = 2"
    using toy_v1 [of expm] toy_v2 [of expm] toy_v3 [of expm]
    by (simp_all add: numeral_2_eq_2 numeral_3_eq_3)
  have oc: "overcounting_correct (self_n toy4) 1 [0, 1] 1 = 1 / 2"
    "overcounting_correct (self_n toy4) (1 / 2) [0, 1] 2 = 2"
    "overcounting_correct (self_n toy4) 2 [0, 1] 2 = 1 / 2"
    by (simp_all add: overcounting_correct_def toy4_n)
  have "(0::nat) < 2" "(2::nat) + 2 \<le> self_n toy4" by (simp_all add: toy4_n)
  from run_vars_weight_entry [OF this, of 0 2 expm toy_draws]
  have w: "m_log_weights (run_vars toy4 expm 2 toy_draws 3) ! 3 ! 0 =
     forest_loglik toy4 (m_core (run_vars toy4 expm 2 toy_draws 3)) 2 0 -
     m_log_likelihood_tilda (run_vars toy4 expm 2 toy_draws 3) ! 0 +
     tf_log 2 - tf_log (1 / ncr (int (self_n toy4) - int 2) 2)"
    using v(3) by (simp add: numeral_3_eq_3 [symmetric])
  show ?thesis
    using pairs v w by (simp only: oc)
qed

text \<open>
  Claim C5 fails on the code.  The multiplicity starts at 1 and the update of
  \<open>overcounting_correct\<close> never lowers it in a run, but the value that \<open>body_main\<close> carries
  into the next step is the reciprocal that \<open>overcounting_correct\<close> returns.  In the run
  above, particle 0 has the multiplicity \<open>1 + 1 = 2\<close> after the update of step 1, and the
  loop carries \<open>1 / 2\<close> into step 2, which is below 1.
\<close>

theorem multiplicity_below_one:
  "m_v (run_vars toy4 expm 2 toy_draws 0) ! 0 = 1 \<and>
   m_v (run_vars toy4 expm 2 toy_draws 1) ! 0 = 1 \<and>
   m_v (run_vars toy4 expm 2 toy_draws 2) ! 0 = 1 / (1 + 1) \<and>
   \<not> 1 \<le> m_v (run_vars toy4 expm 2 toy_draws 2) ! 0"
proof -
  have "m_v (run_vars toy4 expm 2 toy_draws 0) ! 0 = 1"
    by (simp add: run_vars_v_0)
  moreover have "m_v (run_vars toy4 expm 2 toy_draws 1) ! 0 = 1"
    using toy_v1 [of expm] by simp
  moreover have "m_v (run_vars toy4 expm 2 toy_draws 2) ! 0 = 1 / 2"
    using toy_v2 [of expm] by (simp add: numeral_2_eq_2)
  ultimately show ?thesis by simp
qed

text \<open>
  Claim C10.  At every step \<open>r\<close> of a run (\<open>r + 2 \<le> n\<close>), both coalesced indices that
  \<open>extend_partial_state\<close> returns for a particle are at most \<open>n - r - 1\<close>, so they are never
  both above the threshold: for such a pair \<open>overcounting_correct\<close> adds 1 or 0, never
  \<open>-1\<close>, and the denominator of the reciprocal it returns is positive in every run.
\<close>

theorem decrement_unreachable:
  assumes "r + 2 \<le> self_n self"
  shows "(case extend_partial_state (self_n self) K d JCK r of
      (particle1, particle2, particle_coalesced, coalesced_indices, remaining_indices, q, JCK') \<Rightarrow>
        \<forall>k < K.
          coalesced_indices ! k ! 0 \<le> self_n self - r - 1 \<and>
          coalesced_indices ! k ! 1 \<le> self_n self - r - 1 \<and>
          \<not> (int (coalesced_indices ! k ! 0) > int (self_n self) - int r - 1 \<and>
             int (coalesced_indices ! k ! 1) > int (self_n self) - int r - 1) \<and>
          (\<forall>v. overcounting_correct (self_n self) v (coalesced_indices ! k) r =
             1 / (v + (if coalesced_indices ! k ! 0 < self_n self - r - 1 \<and>
                          coalesced_indices ! k ! 1 < self_n self - r - 1 then 1 else 0))) \<and>
          0 < m_v (run_vars self expm K d r) ! k +
              (if coalesced_indices ! k ! 0 < self_n self - r - 1 \<and>
                  coalesced_indices ! k ! 1 < self_n self - r - 1 then 1 else 0))"
proof -
  have "coalesced_pair (self_n self) d r k ! 0 \<le> self_n self - r - 1 \<and>
        coalesced_pair (self_n self) d r k ! 1 \<le> self_n self - r - 1 \<and>
        \<not> (int (coalesced_pair (self_n self) d r k ! 0) > int (self_n self) - int r - 1 \<and>
           int (coalesced_pair (self_n self) d r k ! 1) > int (self_n self) - int r - 1)" for k
  proof -
    have "coalesced_pair (self_n self) d r k ! 0 < self_n self - r"
      "coalesced_pair (self_n self) d r k ! 1 < self_n self - r"
      using assms by (simp_all add: coalesced_pair_less)
    then show ?thesis using assms by linarith
  qed
  moreover have "0 < m_v (run_vars self expm K d r) ! k +
      (if coalesced_pair (self_n self) d r k ! 0 < self_n self - r - 1 \<and>
          coalesced_pair (self_n self) d r k ! 1 < self_n self - r - 1 then 1 else 0)"
    if "k < K" for k
  proof -
    have "r \<le> self_n self - 1" using assms by simp
    then have "0 < m_v (run_vars self expm K d r) ! k"
      using that by (rule run_vars_v_pos)
    then show ?thesis by simp
  qed
  ultimately show ?thesis
    using assms
    by (simp add: extend_partial_state_eq overcounting_correct_pair del: One_nat_def)
qed

theorem decrement_unreachable_witness:
  "(1::nat) + 2 \<le> self_n toy4 \<and> (0::nat) < 2 \<and>
   (case extend_partial_state (self_n toy4) 2 toy_draws
           [[''A'', ''B'', ''C+D''], [''A'', ''B'', ''C+D'']] 1 of
      (particle1, particle2, particle_coalesced, coalesced_indices, remaining_indices, q, JCK') \<Rightarrow>
          coalesced_indices ! 0 ! 0 \<le> self_n toy4 - 1 - 1 \<and>
          coalesced_indices ! 0 ! 1 \<le> self_n toy4 - 1 - 1 \<and>
          0 < m_v (run_vars toy4 (\<lambda>M. M) 2 toy_draws 1) ! 0 +
              (if coalesced_indices ! 0 ! 0 < self_n toy4 - 1 - 1 \<and>
                  coalesced_indices ! 0 ! 1 < self_n toy4 - 1 - 1 then 1 else 0))"
proof -
  have h: "(1::nat) + 2 \<le> self_n toy4" "(0::nat) < 2" by (simp_all add: toy4_n)
  from decrement_unreachable [OF h(1), where K = 2 and d = toy_draws and expm = "\<lambda>M. M"
      and JCK = "[[''A'', ''B'', ''C+D''], [''A'', ''B'', ''C+D'']]"] h
  show ?thesis by (auto simp: case_prod_unfold)
qed


section \<open>The recorded log weights and the estimator\<close>

lemma sample_phylogenies_log_weights:
  "s_log_weights (sample_phylogenies self expm K d) =
     gather (m_log_weights (run_vars self expm K d (self_n self - 1))) [1..<self_n self]"
  by (simp add: sample_phylogenies_def Let_def while_main_initial)

lemma sample_phylogenies_elbo:
  "s_elbo (sample_phylogenies self expm K d) =
     compute_log_ZSMC K (s_log_weights (sample_phylogenies self expm K d))"
  by (simp add: sample_phylogenies_def Let_def)


lemma recorded_shape:
  "length (s_log_weights (sample_phylogenies self expm K d)) = self_n self - 1 \<and>
   (\<forall>i < self_n self - 1. length (s_log_weights (sample_phylogenies self expm K d) ! i) = K)"
proof -
  have le: "self_n self - 1 \<le> self_n self - 1" by simp
  note sh = run_vars_matrix_shape [OF le, of expm K d]
  have "length (m_log_weights (run_vars self expm K d (self_n self - 1)) ! Suc i) = K"
    if "i < self_n self - 1" for i
  proof -
    have "m_log_weights (run_vars self expm K d (self_n self - 1)) ! Suc i
          \<in> set (m_log_weights (run_vars self expm K d (self_n self - 1)))"
      using that sh by (intro nth_mem) simp
    then show ?thesis using sh by blast
  qed
  then show ?thesis
    by (simp add: sample_phylogenies_log_weights gather_def)
qed



text \<open>
  Claim C7.  For \<open>K \<ge> 1\<close> particles the returned ELBO is the sum, over the \<open>n - 1\<close> rows
  of the recorded log-weight matrix, of the logarithm of the sum over the \<open>K\<close> particles of
  \<open>exp (logWeight[step, k] - log K)\<close>, that is of \<open>logsumexp\<close> of the shifted row.  The
  matrix has \<open>n - 1\<close> rows of length \<open>K\<close>, and every logarithm is taken of a positive
  number.
\<close>

theorem elbo_formula:
  assumes "1 \<le> K"
  shows "s_elbo (sample_phylogenies self expm K d) =
     (\<Sum>step < self_n self - 1.
        ln (\<Sum>k < K. exp (s_log_weights (sample_phylogenies self expm K d) ! step ! k - ln (real K)))) \<and>
     length (s_log_weights (sample_phylogenies self expm K d)) = self_n self - 1 \<and>
     (\<forall>step < self_n self - 1.
        length (s_log_weights (sample_phylogenies self expm K d) ! step) = K \<and>
        0 < (\<Sum>k < K. exp (s_log_weights (sample_phylogenies self expm K d) ! step ! k - ln (real K))))"
proof -
  define lw where "lw = s_log_weights (sample_phylogenies self expm K d)"
  have sh: "length lw = self_n self - 1" "\<And>i. i < self_n self - 1 \<Longrightarrow> length (lw ! i) = K"
    using recorded_shape [of self expm K d] by (simp_all add: lw_def)
  have row: "reduce_logsumexp (map (\<lambda>w. w - tf_log (real K)) (lw ! i)) =
             ln (\<Sum>k < K. exp (lw ! i ! k - ln (real K)))" if "i < self_n self - 1" for i
  proof -
    have "sum_list (map exp (map (\<lambda>w. w - ln (real K)) (lw ! i))) =
          (\<Sum>k < K. exp (lw ! i ! k - ln (real K)))"
      using sh(2) [OF that] by (simp add: sum_list_sum_nth atLeast0LessThan)
    then show ?thesis by (simp add: reduce_logsumexp_def tf_log_def)
  qed
  have "compute_log_ZSMC K lw =
        (\<Sum>i < length lw. reduce_logsumexp (map (\<lambda>w. w - tf_log (real K)) (lw ! i)))"
    by (simp add: compute_log_ZSMC_def sum_list_sum_nth atLeast0LessThan)
  also have "\<dots> = (\<Sum>i < self_n self - 1. ln (\<Sum>k < K. exp (lw ! i ! k - ln (real K))))"
    by (simp add: sh(1) row)
  finally have e: "s_elbo (sample_phylogenies self expm K d) =
        (\<Sum>i < self_n self - 1. ln (\<Sum>k < K. exp (lw ! i ! k - ln (real K))))"
    by (simp add: sample_phylogenies_elbo lw_def)
  have pos: "0 < (\<Sum>k < K. exp (lw ! i ! k - ln (real K)))" for i
    using assms by (intro sum_pos) (auto simp: lessThan_empty_iff)
  show ?thesis
    using e sh pos by (simp add: lw_def)
qed

theorem elbo_formula_witness:
  "(1::nat) \<le> 2 \<and> (1::nat) < self_n toy4 - 1 \<and>
   s_elbo (sample_phylogenies toy4 (\<lambda>M. M) 2 toy_draws) =
     (\<Sum>step < self_n toy4 - 1.
        ln (\<Sum>k < 2. exp (s_log_weights (sample_phylogenies toy4 (\<lambda>M. M) 2 toy_draws) ! step ! k -
                          ln (real 2)))) \<and>
   length (s_log_weights (sample_phylogenies toy4 (\<lambda>M. M) 2 toy_draws)) = self_n toy4 - 1 \<and>
   length (s_log_weights (sample_phylogenies toy4 (\<lambda>M. M) 2 toy_draws) ! 1) = 2"
proof -
  have h: "(1::nat) \<le> 2" "(1::nat) < self_n toy4 - 1" by (simp_all add: toy4_n)
  from elbo_formula [OF h(1), of toy4 "\<lambda>M. M" toy_draws] h
  show ?thesis by blast
qed

section \<open>The rate matrix\<close>

lemma length_set_diag [simp]: "length (set_diag M d) = length M"
  by (simp add: set_diag_def)

lemma nth_set_diag: "i < length M \<Longrightarrow> set_diag M d ! i = (M ! i)[i := d ! i]"
  by (simp add: set_diag_def)

lemma map2_replicate: "length xs = a \<Longrightarrow> map2 f xs (replicate a c) = map (\<lambda>x. f x c) xs"
  by (induction xs arbitrary: a) auto

lemma sum_list_update_real:
  fixes xs :: "real list"
  shows "k < length xs \<Longrightarrow> sum_list (xs[k := x]) = sum_list xs + x - xs ! k"
  by (induction xs arbitrary: k) (auto split: nat.splits)

lemma sum_list_pos_entry:
  fixes xs :: "real list"
  assumes "\<forall>x \<in> set xs. 0 \<le> x" and "j < length xs" and "0 < xs ! j"
  shows "0 < sum_list xs"
proof -
  have "xs = take j xs @ xs ! j # drop (Suc j) xs"
    using assms(2) by (rule id_take_nth_drop)
  then have "sum_list xs = sum_list (take j xs) + xs ! j + sum_list (drop (Suc j) xs)"
    by (metis add.assoc sum_list.Cons sum_list.append)
  moreover have "0 \<le> sum_list (take j xs)"
    using assms(1) by (intro sum_list_nonneg) (auto dest: in_set_takeD)
  moreover have "0 \<le> sum_list (drop (Suc j) xs)"
    using assms(1) by (intro sum_list_nonneg) (auto dest: in_set_dropD)
  ultimately show ?thesis using assms(3) by linarith
qed

text \<open>
  Row \<open>i\<close> of \<open>get_Q\<close>: the exponentials of row \<open>i\<close> of the parameters with the diagonal
  entry cleared, divided by their sum, and the negated sum of the quotients on the
  diagonal.
\<close>

lemma get_Q_row:
  fixes y :: matrix
  assumes "length y = a" "i < a" "length (y ! i) = a" and "e = (map exp (y ! i))[i := 0]"
  shows "get_Q a y ! i =
     (map (\<lambda>x. x * (1 / sum_list e)) e)[i := - sum_list (map (\<lambda>x. x * (1 / sum_list e)) e)]"
  using assms
  by (simp add: get_Q_def Let_def nth_set_diag map2_replicate)

text \<open>With at least two states the divisor of a row is positive.\<close>

lemma exp_row_pos:
  fixes y :: matrix
  assumes "i < a" "length (y ! i) = a" "2 \<le> a" and "e = (map exp (y ! i))[i := 0]"
  shows "0 < sum_list e"
proof -
  define j where "j = (if i = 0 then 1 else 0 :: nat)"
  have j: "j < a" "j \<noteq> i" using assms by (simp_all add: j_def)
  have "\<forall>x \<in> set e. 0 \<le> x"
    unfolding assms(4) by (auto dest!: set_update_subset_insert [THEN subsetD])
  moreover have "j < length e" using j assms by simp
  moreover have "0 < e ! j" using j assms by simp
  ultimately show ?thesis by (rule sum_list_pos_entry)
qed

text \<open>
  Claim C8.  For an alphabet of at least two states and every \<open>a \<times> a\<close> matrix of rate
  parameters, every row of the matrix returned by \<open>get_Q\<close> sums to zero and every
  off-diagonal entry is non-negative.
\<close>

theorem get_Q_generator:
  assumes "2 \<le> a" and "length y = a" and "\<forall>row \<in> set y. length row = a"
  shows "\<forall>i < a. sum_list (get_Q a y ! i) = 0 \<and> (\<forall>j < a. j \<noteq> i \<longrightarrow> 0 \<le> get_Q a y ! i ! j)"
proof (intro allI impI conjI)
  fix i assume i: "i < a"
  then have len: "length (y ! i) = a" using assms by simp
  define e where "e = (map exp (y ! i))[i := 0]"
  define q where "q = map (\<lambda>x. x * (1 / sum_list e)) e"
  have row: "get_Q a y ! i = q[i := - sum_list q]"
    unfolding q_def by (rule get_Q_row [OF assms(2) i len e_def])
  have li: "i < length q" using i len by (simp add: e_def q_def)
  have qi: "q ! i = 0" using i len by (simp add: e_def q_def)
  have "sum_list (q[i := - sum_list q]) = sum_list q + (- sum_list q) - q ! i"
    using li by (rule sum_list_update_real)
  then show "sum_list (get_Q a y ! i) = 0"
    by (simp add: row qi)
  fix j assume j: "j < a" "j \<noteq> i"
  have d: "0 < sum_list e" by (rule exp_row_pos [OF i len assms(1) e_def])
  have "q ! j = exp (y ! i ! j) * (1 / sum_list e)"
    using j i len by (simp add: q_def e_def)
  then have "0 \<le> q ! j" using d by simp
  then show "0 \<le> get_Q a y ! i ! j"
    using j by (simp add: row)
qed

theorem get_Q_generator_witness:
  "(2::nat) \<le> 2 \<and> length [[0, 1 / 2], [1 / 2, 0 :: real]] = 2 \<and>
   length [0, 1 / 2 :: real] = 2 \<and> length [1 / 2, 0 :: real] = 2 \<and>
   (0::nat) < 2 \<and> (1::nat) < 2 \<and> (1::nat) \<noteq> 0 \<and>
   sum_list (get_Q 2 [[0, 1 / 2], [1 / 2, 0]] ! 0) = 0 \<and>
   0 \<le> get_Q 2 [[0, 1 / 2], [1 / 2, 0]] ! 0 ! 1"
proof -
  have h: "(2::nat) \<le> 2" "length [[0, 1 / 2], [1 / 2, 0 :: real]] = 2"
    "\<forall>row \<in> set [[0, 1 / 2], [1 / 2, 0 :: real]]. length row = 2"
    by simp_all
  have i: "(0::nat) < 2" "(1::nat) < 2" "(1::nat) \<noteq> 0" by simp_all
  from get_Q_generator [OF h] i have
    "sum_list (get_Q 2 [[0, 1 / 2], [1 / 2, 0]] ! 0) = 0 \<and>
     0 \<le> get_Q 2 [[0, 1 / 2], [1 / 2, 0]] ! 0 ! 1"
    by blast
  then show ?thesis by simp
qed

section \<open>The tree likelihood\<close>

lemma compute_tree_likelihood_rows:
  "compute_tree_likelihood [p] data = (\<Sum>row\<leftarrow>data. tf_log (sum_list (map2 (*) p row)))"
  by (simp add: compute_tree_likelihood_def matmul_transpose_b_def Let_def o_def)

lemma get_stationary_probs_single:
  "get_stationary_probs y = [hd (get_stationary_probs y)]"
  by (simp add: get_stationary_probs_def Let_def)

lemma stationary_probs_uniform: "get_stationary_probs [1 / 2, 1 / 2] = [[1 / 2, 1 / 2]]"
  by (simp add: get_stationary_probs_def Let_def)

text \<open>
  Claim C2, as amended.  For a root partial-likelihood matrix whose rows all have a
  positive likelihood under the stationary distribution, \<open>compute_tree_likelihood\<close> dots
  the stationary distribution against every row (one row per sequence position) and
  returns the sum over the sequence positions of the logarithms of these numbers: the
  logarithm of their product, not of their sum.
\<close>

theorem tree_likelihood_sum_of_logs:
  assumes "\<forall>row \<in> set data. 0 < sum_list (map2 (*) (hd (get_stationary_probs y)) row)"
  shows "compute_tree_likelihood (get_stationary_probs y) data =
     (\<Sum>row\<leftarrow>data. ln (sum_list (map2 (*) (hd (get_stationary_probs y)) row)))"
proof -
  have "compute_tree_likelihood [hd (get_stationary_probs y)] data =
     (\<Sum>row\<leftarrow>data. ln (sum_list (map2 (*) (hd (get_stationary_probs y)) row)))"
    by (simp add: compute_tree_likelihood_rows tf_log_def)
  then show ?thesis
    using get_stationary_probs_single [of y] by simp
qed

theorem tree_likelihood_sum_of_logs_witness:
  "0 < sum_list (map2 (*) (hd (get_stationary_probs [1 / 2, 1 / 2])) [1, 0]) \<and>
   0 < sum_list (map2 (*) (hd (get_stationary_probs [1 / 2, 1 / 2])) [0, 1]) \<and>
   compute_tree_likelihood (get_stationary_probs [1 / 2, 1 / 2]) [[1, 0], [0, 1]] =
     ln (1 / 2) + ln (1 / 2)"
proof -
  have h: "\<forall>row \<in> set [[1, 0], [0, 1 :: real]].
      0 < sum_list (map2 (*) (hd (get_stationary_probs [1 / 2, 1 / 2])) row)"
    by (simp add: stationary_probs_uniform)
  from tree_likelihood_sum_of_logs [OF h] h show ?thesis
    by (simp add: stationary_probs_uniform)
qed

text \<open>
  The claim as stated, the logarithm of the likelihood summed over the sequence
  positions, fails for two positions of likelihood \<open>1 / 2\<close> each: the code returns
  \<open>2 ln (1 / 2)\<close>, the logarithm of the sum is \<open>ln 1 = 0\<close>.
\<close>

theorem tree_likelihood_log_of_sum_counterexample:
  "compute_tree_likelihood (get_stationary_probs [1 / 2, 1 / 2]) [[1, 0], [0, 1]] \<noteq>
     ln (\<Sum>row\<leftarrow>[[1, 0], [0, 1]]. sum_list (map2 (*) (hd (get_stationary_probs [1 / 2, 1 / 2])) row))"
proof -
  have "compute_tree_likelihood [[1 / 2, 1 / 2]] [[1, 0], [0, 1]] = ln (1 / 2) + ln (1 / 2)"
    by (simp add: compute_tree_likelihood_rows tf_log_def)
  moreover have "ln (1 / 2 :: real) < 0" by simp
  ultimately show ?thesis
    by (simp add: stationary_probs_uniform)
qed


section \<open>The forest a particle samples from\<close>

lemma run_vars_chain_Suc:
  assumes "j + 2 \<le> self_n self"
  shows "m_jump_chain_tensor (run_vars self expm K d (Suc j)) =
     (let chain = (if 0 < j
                   then gather (m_jump_chain_tensor (run_vars self expm K d j))
                          (map (categorical d j) [0..<K])
                   else m_jump_chain_tensor (run_vars self expm K d j))
      in map (\<lambda>k. gather (concat chain) (remaining_nodes (self_n self) d j k) @
                 [concat chain ! (coalesced_pair (self_n self) d j k ! 0) @ ''+'' @
                  concat chain ! (coalesced_pair (self_n self) d j k ! 1)]) [0..<K])"
proof -
  note st = run_vars_step [OF assms, of expm K d]
  have r: "m_r (run_vars self expm K d j) = j"
    using assms run_vars_r_v [of j self expm K d] by simp
  show ?thesis
    by (simp add: run_vars_Suc body_main_eq [OF st] Let_def r)
qed

text \<open>
  The scores under \<open>split_draws\<close>: at step 0 particle 0 sees \<open>0, 1, 2\<close> and merges the
  nodes 2 and 1, particle 1 sees \<open>3, 1, 2\<close> and merges the nodes 0 and 2; at step 1 both
  see \<open>0, 1\<close> and merge the nodes 1 and 0.
\<close>

lemma split_scores:
  "gumbel_scores 3 split_draws 0 0 = [0, 1, 2]"
  "gumbel_scores 3 split_draws 0 (Suc 0) = [3, 1, 2]"
  "gumbel_scores 2 split_draws (Suc 0) k = [0, 1]"
  by (simp_all add: gumbel_scores_def split_draws_def tf_log_def upt_rec)

lemma split_pairs:
  "coalesced_pair 3 split_draws 0 0 = [2, Suc 0]"
  "coalesced_pair 3 split_draws 0 (Suc 0) = [0, 2]"
  "coalesced_pair 3 split_draws (Suc 0) k = [Suc 0, 0]"
  "remaining_nodes 3 split_draws 0 0 = [0]"
  "remaining_nodes 3 split_draws 0 (Suc 0) = [Suc 0]"
  "remaining_nodes 3 split_draws (Suc 0) k = []"
  by (simp_all add: coalesced_pair_def remaining_nodes_def split_scores top_k_def Let_def upt_rec)

lemma split_chain_1:
  "m_jump_chain_tensor (run_vars toy3 expm 2 split_draws (Suc 0)) =
     [[''A'', ''C+B''], [''B'', ''A+C'']]"
proof -
  have "m_jump_chain_tensor (run_vars toy3 expm 2 split_draws 0) =
          [[''A'', ''B'', ''C''], [''A'', ''B'', ''C'']]"
    by (simp add: run_vars_0 initial_vars_def toy3_def numeral_2_eq_2)
  then show ?thesis
    using run_vars_chain_Suc [of 0 toy3 expm 2 split_draws]
    by (simp add: toy3_n split_pairs gather_def upt_rec numeral_2_eq_2)
qed

lemma ncr_2_2: "ncr 2 2 = 1"
  by (simp add: ncr_def reduce_prod_int32_def tf_range_def upto_rec1)

text \<open>
  Claim C1 fails on the code.  In the run over the three taxa \<open>A\<close>, \<open>B\<close>, \<open>C\<close> with two
  particles and \<open>split_draws\<close>, the forests after step 0 are \<open>A, C+B\<close> for particle 0 and
  \<open>B, A+C\<close> for particle 1.  At step 1 \<open>extend_partial_state\<close> reads the labels at the
  sampled positions \<open>1\<close> and \<open>0\<close> out of the flattened tensor, that is out of the forest of
  particle 0, for both particles: particle 1 is given the nodes \<open>C+B\<close> and \<open>A\<close>, neither
  of which is in its forest, and the root \<open>C+B+A\<close> instead of \<open>A+C+B\<close>.
\<close>

theorem extend_partial_state_foreign_forest:
  "m_jump_chain_tensor (run_vars toy3 expm 2 split_draws 1) = [[''A'', ''C+B''], [''B'', ''A+C'']] \<and>
   extend_partial_state 3 2 split_draws [[''A'', ''C+B''], [''B'', ''A+C'']] 1 =
     ([''C+B'', ''C+B''], [''A'', ''A''], [''C+B+A'', ''C+B+A''],
      [[1, 0], [1, 0]], [[], []], 1, [[''C+B+A''], [''C+B+A'']])"
proof -
  have le: "Suc 0 + 2 \<le> (3::nat)" by simp
  have "extend_partial_state 3 2 split_draws [[''A'', ''C+B''], [''B'', ''A+C'']] (Suc 0) =
     ([''C+B'', ''C+B''], [''A'', ''A''], [''C+B+A'', ''C+B+A''],
      [[Suc 0, 0], [Suc 0, 0]], [[], []], 1, [[''C+B+A''], [''C+B+A'']])"
    by (simp add: extend_partial_state_eq [OF le] split_pairs gather_def upt_rec numeral_2_eq_2
        ncr_2_2)
  then show ?thesis
    using split_chain_1 [of expm] by simp
qed


end
